theory Spec2Isabelle
  imports Complex_Main
begin

section \<open>JavaScript values\<close>

text \<open>
  A JavaScript string is a sequence of UTF-16 code units; a code unit is modelled by its
  number. \<open>js\<close> turns an Isabelle literal into such a string, so that
  \<open>js ''B''\<close> is the string \<^verbatim>\<open>'B'\<close>.
\<close>

type_synonym jsstring = "nat list"

definition js :: "string \<Rightarrow> jsstring" where
  "js s = map of_char s"

text \<open>
  A number is a double: not a number, an infinity, or a finite value (a rational; the two
  zeros are not told apart, they render and test alike).
\<close>

datatype jsnumber = NaN | PosInfinity | NegInfinity | Finite rat

text \<open>The argument type of \<^verbatim>\<open>onSend\<close>: \<^verbatim>\<open>string | number\<close>.\<close>

datatype jsvalue = Num jsnumber | Str jsstring

text \<open>
  The built-ins of the language that the program calls and whose definitions live in the
  language standard: \<^verbatim>\<open>String.prototype.toUpperCase\<close>, \<^verbatim>\<open>toLowerCase\<close>,
  \<^verbatim>\<open>Number.prototype.toString\<close>, and \<^verbatim>\<open>isNaN(Number(s))\<close> on a string.
  They are parameters of the model: every theorem below holds for all of them.
\<close>

record builtins =
  toUpperCase :: "jsstring \<Rightarrow> jsstring"
  toLowerCase :: "jsstring \<Rightarrow> jsstring"
  numberToString :: "jsnumber \<Rightarrow> jsstring"
  stringIsNaN :: "jsstring \<Rightarrow> bool"

section \<open>Regular expressions of \<^verbatim>\<open>onSend\<close>\<close>

definition isDigit :: "nat \<Rightarrow> bool" where
  "isDigit c = (48 \<le> c \<and> c \<le> 57)"

text \<open>\<^verbatim>\<open>\w\<close> is \<^verbatim>\<open>[A-Za-z0-9_]\<close>; \<^verbatim>\<open>\W\<close> is its complement.\<close>

definition isWordChar :: "nat \<Rightarrow> bool" where
  "isWordChar c = ((65 \<le> c \<and> c \<le> 90) \<or> (97 \<le> c \<and> c \<le> 122) \<or> isDigit c \<or> c = 95)"

text \<open>\<^verbatim>\<open>\s\<close>: the white space and line terminator code units.\<close>

definition isWhiteSpace :: "nat \<Rightarrow> bool" where
  "isWhiteSpace c =
     ((9 \<le> c \<and> c \<le> 13) \<or> c = 32 \<or> c = 160 \<or> c = 5760 \<or> (8192 \<le> c \<and> c \<le> 8202)
      \<or> c = 8232 \<or> c = 8233 \<or> c = 8239 \<or> c = 8287 \<or> c = 12288 \<or> c = 65279)"

text \<open>Line 155: \<^verbatim>\<open>/^[0-9\s\W]+$/.test(inputUser)\<close>.\<close>

definition testNumbersSpacesSpecial :: "jsstring \<Rightarrow> bool" where
  "testNumbersSpacesSpecial s =
     (s \<noteq> [] \<and> list_all (\<lambda>c. isDigit c \<or> isWhiteSpace c \<or> \<not> isWordChar c) s)"

text \<open>
  Line 160: \<^verbatim>\<open>/[aeiouy]/i.test(inputUser)\<close>. Without the unicode flag, ignoring case
  never maps a code unit from 128 on to an ASCII one, so the class holds these twelve
  letters and no other.
\<close>

definition isVowel :: "nat \<Rightarrow> bool" where
  "isVowel c = (c = 97 \<or> c = 101 \<or> c = 105 \<or> c = 111 \<or> c = 117 \<or> c = 121
              \<or> c = 65 \<or> c = 69 \<or> c = 73 \<or> c = 79 \<or> c = 85 \<or> c = 89)"

definition testVowel :: "jsstring \<Rightarrow> bool" where
  "testVowel s = list_ex isVowel s"

text \<open>Lines 241 and 243: \<^verbatim>\<open>/[.,!?]/\<close>, tested and then replaced globally by nothing.\<close>

definition isPunctuation :: "nat \<Rightarrow> bool" where
  "isPunctuation c = (c = 46 \<or> c = 44 \<or> c = 33 \<or> c = 63)"

definition testPunctuation :: "jsstring \<Rightarrow> bool" where
  "testPunctuation s = list_ex isPunctuation s"

definition removePunctuation :: "jsstring \<Rightarrow> jsstring" where
  "removePunctuation s = filter (\<lambda>c. \<not> isPunctuation c) s"

section \<open>Splitting\<close>

text \<open>
  \<^verbatim>\<open>s.split(sep)\<close> for a separator of one code unit: the pieces between the
  separators, one more than there are separators; the empty string gives one empty piece.
\<close>

fun js_split :: "nat \<Rightarrow> jsstring \<Rightarrow> jsstring list" where
  "js_split sep [] = [[]]"
| "js_split sep (c # cs) =
     (if c = sep then [] # js_split sep cs
      else (case js_split sep cs of
              [] \<Rightarrow> [[c]]
            | p # ps \<Rightarrow> (c # p) # ps))"

section \<open>Prompts\<close>

text \<open>The two templates of \<^verbatim>\<open>promt_description\<close>; each ends with a no-break space and a colon.\<close>

definition promptSentenceEnglishToFrench :: jsstring where
  "promptSentenceEnglishToFrench =
     js ''Pouvez-vous traduire ce texte en francais sans ajouter d'informations ? Voici le texte''
     @ [160, 58]"

definition promptEnglishToFrench :: jsstring where
  "promptEnglishToFrench =
     js ''Traduisez ces mots en fran'' @ [231] @ js ''ais. '' @ [201]
     @ js ''crivez simplement la traduction '' @ [160, 58]"

text \<open>Lines 194 to 200: more than five space-separated words select the sentence template.\<close>

definition selectPrompt :: "jsstring \<Rightarrow> jsstring" where
  "selectPrompt paragraph =
     (if length (js_split 32 paragraph) > 5 then promptSentenceEnglishToFrench
      else promptEnglishToFrench)"

section \<open>The inference gateway\<close>

text \<open>
  The engine is an external collaborator. Its requests are recorded, most recent first:
  loading the engine, resetting the chat, a streamed completion (the message content and
  \<^verbatim>\<open>max_gen_len\<close>; \<^verbatim>\<open>stream: true\<close> and \<^verbatim>\<open>temperature: 0.3\<close> are the same in every
  request) and the runtime statistics.
\<close>

datatype request = LoadEngine | ResetChat | Create jsstring nat | RuntimeStatsText

text \<open>
  What the engine answers is not in the program: each operation is an arbitrary function
  of the requests made so far, the current one included. \<open>Inl e\<close> is a thrown error
  with text \<open>e\<close>. A completion answers with the \<^verbatim>\<open>delta.content\<close> of its chunks, each
  possibly absent; an error while the stream is read is an error of the completion.
\<close>

record gateway =
  loadEngine :: "request list \<Rightarrow> jsstring + unit"
  resetChat :: "request list \<Rightarrow> jsstring + unit"
  completion :: "request list \<Rightarrow> jsstring + jsstring option list"
  runtimeStatsText :: "request list \<Rightarrow> jsstring + jsstring"

section \<open>Application state\<close>

record translation =
  input_text :: jsvalue
  output_text :: jsstring
  id_seq :: nat

text \<open>
  The state of the component that the translation run reads or writes.
  \<open>isGenerating\<close> is the React state as last set; \<open>committedIsGenerating\<close> is its
  value in the last committed render; \<open>isGeneratingRef\<close> is
  \<^verbatim>\<open>isGeneratingRef.current\<close>. \<open>nextId\<close> is the local variable of line 63.
  \<open>requests\<close> is the log of gateway requests.
\<close>

record app_state =
  isGenerating :: bool
  committedIsGenerating :: bool
  isGeneratingRef :: bool
  errorBrowserMessage :: "jsstring option"
  runtimeStats :: jsstring
  translationList :: "translation list"
  nextId :: nat
  currentRow :: nat
  totalRows :: nat
  requests :: "request list"

text \<open>
  Lines 59 to 61: after a render is committed in which \<open>isGenerating\<close> differs from the
  previous render, the effect copies it into the ref.
\<close>

definition commit :: "app_state \<Rightarrow> app_state" where
  "commit st =
     (if isGenerating st \<noteq> committedIsGenerating st
      then st\<lparr>committedIsGenerating := isGenerating st, isGeneratingRef := isGenerating st\<rparr>
      else st)"

text \<open>
  Lines 261 to 269, past the guard on the engine: \<open>onStop\<close> clears the state (and asks
  the engine to interrupt, which shows in what the gateway then answers).
\<close>

definition onStop :: "app_state \<Rightarrow> app_state" where
  "onStop st = st\<lparr>isGenerating := False\<rparr>"

text \<open>
  While \<^verbatim>\<open>onSend\<close> awaits the gateway, the user may click Stop and React may commit a
  render. When that happens is not fixed by the program; it is given by a schedule.
\<close>

datatype event = StopClick | Commit

fun applyEvent :: "event \<Rightarrow> app_state \<Rightarrow> app_state" where
  "applyEvent StopClick st = onStop st"
| "applyEvent Commit st = commit st"

fun applyEvents :: "event list \<Rightarrow> app_state \<Rightarrow> app_state" where
  "applyEvents [] st = st"
| "applyEvents (e # es) st = applyEvents es (applyEvent e st)"

text \<open>Lines 65 to 73: the new record goes in front, and the list is cut to 40 entries.\<close>

definition addTranslation :: "jsvalue \<Rightarrow> jsstring \<Rightarrow> app_state \<Rightarrow> app_state" where
  "addTranslation inp outp st =
     st\<lparr>translationList := take 40 (\<lparr>input_text = inp, output_text = outp, id_seq = nextId st\<rparr> # translationList st),
        nextId := nextId st + 1\<rparr>"

section \<open>\<^verbatim>\<open>onSend\<close>\<close>

text \<open>Lines 213 to 218: a chunk with content appends it; a chunk without adds nothing.\<close>

fun concatDeltas :: "jsstring option list \<Rightarrow> jsstring" where
  "concatDeltas [] = []"
| "concatDeltas (None # ds) = concatDeltas ds"
| "concatDeltas (Some t # ds) = t @ concatDeltas ds"

text \<open>
  Lines 188 to 226, the loop over the paragraphs: \<open>n\<close> is \<^verbatim>\<open>paragraphs.length\<close>,
  \<open>i\<close> the index of the first paragraph left, \<open>msg\<close> the \<^verbatim>\<open>assistantMessage\<close> so far.
  The loop runs only for \<open>n \<ge> 1\<close>, where \<open>n - 1\<close> is the source's subtraction.
\<close>

fun translateParagraphs ::
  "gateway \<Rightarrow> nat \<Rightarrow> nat \<Rightarrow> jsstring list \<Rightarrow> jsstring \<Rightarrow> request list
   \<Rightarrow> (jsstring + jsstring) \<times> request list" where
  "translateParagraphs gw n i [] msg reqs = (Inr msg, reqs)"
| "translateParagraphs gw n i (paragraph # ps) msg reqs =
     (if paragraph = [] then translateParagraphs gw n (i + 1) ps (msg @ [10]) reqs
      else
        (let reqs' = Create (selectPrompt paragraph @ paragraph) (length paragraph + 50) # reqs
         in case completion gw reqs' of
              Inl e \<Rightarrow> (Inl e, reqs')
            | Inr deltas \<Rightarrow>
                translateParagraphs gw n (i + 1) ps
                  (if i < n - 1 then msg @ concatDeltas deltas @ [10]
                   else msg @ concatDeltas deltas)
                  reqs'))"

text \<open>Lines 181 to 226: reset the chat, split the text at its newlines, translate.\<close>

definition generate :: "gateway \<Rightarrow> jsstring \<Rightarrow> request list \<Rightarrow> (jsstring + jsstring) \<times> request list" where
  "generate gw s reqs =
     (case resetChat gw (ResetChat # reqs) of
        Inl e \<Rightarrow> (Inl e, ResetChat # reqs)
      | Inr _ \<Rightarrow>
          translateParagraphs gw (length (js_split 10 s)) 0 (js_split 10 s) [] (ResetChat # reqs))"

text \<open>Lines 228 to 244: the length guard, the case matching, the punctuation removal.\<close>

definition postProcess :: "builtins \<Rightarrow> jsstring \<Rightarrow> jsstring \<Rightarrow> jsstring" where
  "postProcess b inputUser assistantMessage =
     (let m1 = (if length assistantMessage > 3 * length inputUser then inputUser
                else assistantMessage);
          m2 = (if inputUser = toUpperCase b inputUser then toUpperCase b m1
                else if inputUser = toLowerCase b inputUser then toLowerCase b m1
                else m1)
      in if testPunctuation m2 \<and> \<not> testPunctuation inputUser then removePunctuation m2 else m2)"

text \<open>
  Lines 164 to 226: the part of \<^verbatim>\<open>onSend\<close> that talks to the engine, up to the
  assembled \<^verbatim>\<open>assistantMessage\<close>. \<open>engine\<close> says whether the \<^verbatim>\<open>engine\<close> captured by the
  closure is loaded; \<open>evs\<close> is what the schedule lets happen while the gateway is awaited.
\<close>

definition assemble ::
  "gateway \<Rightarrow> event list \<Rightarrow> bool \<Rightarrow> jsstring \<Rightarrow> app_state \<Rightarrow> (jsstring + jsstring) \<times> app_state" where
  "assemble gw evs engine s st =
     (let st1 = applyEvents evs (st\<lparr>isGenerating := True\<rparr>)
      in if engine then
           (case generate gw s (requests st1) of
              (Inl e, reqs) \<Rightarrow>
                (Inl e, st1\<lparr>requests := reqs, isGenerating := False,
                          errorBrowserMessage := Some (js ''Error. Please try again.'')\<rparr>)
            | (Inr msg, reqs) \<Rightarrow> (Inr msg, st1\<lparr>requests := reqs\<rparr>))
         else
           (case loadEngine gw (LoadEngine # requests st1) of
              Inl e \<Rightarrow>
                (Inl e, st1\<lparr>requests := LoadEngine # requests st1, isGenerating := False,
                          errorBrowserMessage := Some (js ''Could not load the model because '' @ e)\<rparr>)
            | Inr _ \<Rightarrow>
                (case generate gw s (LoadEngine # requests st1) of
                   (Inl e, reqs) \<Rightarrow>
                     (Inl e, st1\<lparr>requests := reqs, isGenerating := False,
                               errorBrowserMessage := Some (js ''Error. Please try again.'')\<rparr>)
                 | (Inr msg, reqs) \<Rightarrow> (Inr msg, st1\<lparr>requests := reqs\<rparr>))))"

text \<open>
  Lines 164 to 255: assemble, post-process, read the runtime statistics (inside the same
  \<^verbatim>\<open>try\<close>), return. The result \<open>None\<close> is \<^verbatim>\<open>undefined\<close>.
\<close>

definition translate ::
  "builtins \<Rightarrow> gateway \<Rightarrow> event list \<Rightarrow> bool \<Rightarrow> jsstring \<Rightarrow> app_state \<Rightarrow> jsstring option \<times> app_state" where
  "translate b gw evs engine s st =
     (case assemble gw evs engine s st of
        (Inl e, st2) \<Rightarrow> (None, st2)
      | (Inr msg, st2) \<Rightarrow>
          (case runtimeStatsText gw (RuntimeStatsText # requests st2) of
             Inl e \<Rightarrow>
               (None, st2\<lparr>requests := RuntimeStatsText # requests st2, isGenerating := False,
                         errorBrowserMessage := Some (js ''Error. Please try again.'')\<rparr>)
           | Inr stats \<Rightarrow>
               (Some (postProcess b s msg),
                st2\<lparr>requests := RuntimeStatsText # requests st2, runtimeStats := stats\<rparr>)))"

text \<open>
  Line 150, \<^verbatim>\<open>typeof inputUser === 'number' || !isNaN(Number(inputUser))\<close>, and line 151,
  \<^verbatim>\<open>inputUser.toString()\<close>: a number converts to itself, a string is its own text.
\<close>

fun typeofNumber :: "jsvalue \<Rightarrow> bool" where
  "typeofNumber (Num n) = True"
| "typeofNumber (Str s) = False"

fun isNaN_Number :: "builtins \<Rightarrow> jsvalue \<Rightarrow> bool" where
  "isNaN_Number b (Num n) = (n = NaN)"
| "isNaN_Number b (Str s) = stringIsNaN b s"

fun toString :: "builtins \<Rightarrow> jsvalue \<Rightarrow> jsstring" where
  "toString b (Num n) = numberToString b n"
| "toString b (Str s) = s"

text \<open>
  Lines 145 to 256. Past line 152 the input is a string, and \<open>toString\<close> is that
  string.
\<close>

definition onSend ::
  "builtins \<Rightarrow> gateway \<Rightarrow> event list \<Rightarrow> bool \<Rightarrow> jsvalue \<Rightarrow> app_state \<Rightarrow> jsstring option \<times> app_state" where
  "onSend b gw evs engine inputUser st =
     (if inputUser = Str [] then (None, st)
      else if typeofNumber inputUser \<or> \<not> isNaN_Number b inputUser
        then (Some (toString b inputUser), st)
      else if testNumbersSpacesSpecial (toString b inputUser) then (Some (toString b inputUser), st)
      else if \<not> testVowel (toString b inputUser) then (Some (toString b inputUser), st)
      else translate b gw evs engine (toString b inputUser) st)"

section \<open>The row driver\<close>

text \<open>
  A row of \<^verbatim>\<open>jsonData\<close> is an array of cells; \<open>None\<close> is a hole or \<^verbatim>\<open>undefined\<close>.
  A column index is \<^verbatim>\<open>column.charCodeAt(0) - 65\<close>: not a number for the empty string,
  negative for a code unit below \<^verbatim>\<open>'A'\<close>.
\<close>

type_synonym cell = "jsvalue option"
type_synonym row = "cell list"

fun columnIndex :: "jsstring \<Rightarrow> int option" where
  "columnIndex [] = None"
| "columnIndex (c # cs) = Some (int c - 65)"

text \<open>Reading \<^verbatim>\<open>row[j]\<close>: outside the array the value is \<^verbatim>\<open>undefined\<close>.\<close>

fun js_get :: "row \<Rightarrow> int option \<Rightarrow> cell" where
  "js_get r None = None"
| "js_get r (Some j) = (if 0 \<le> j \<and> nat j < length r then r ! nat j else None)"

text \<open>
  Writing \<^verbatim>\<open>row[j] = v\<close>: past the end the array grows, with holes in between; a
  negative or not-a-number index names a property and leaves the cells as they are.
\<close>

fun js_set :: "row \<Rightarrow> int option \<Rightarrow> cell \<Rightarrow> row" where
  "js_set r None v = r"
| "js_set r (Some j) v =
     (if j < 0 then r
      else if nat j < length r then r[nat j := v]
      else r @ replicate (nat j - length r) None @ [v])"

text \<open>Line 311, \<^verbatim>\<open>if (value)\<close>: the values that count as true.\<close>

fun truthy :: "cell \<Rightarrow> bool" where
  "truthy None = False"
| "truthy (Some (Str s)) = (s \<noteq> [])"
| "truthy (Some (Num NaN)) = False"
| "truthy (Some (Num (Finite q))) = (q \<noteq> 0)"
| "truthy (Some (Num PosInfinity)) = True"
| "truthy (Some (Num NegInfinity)) = True"

text \<open>\<^verbatim>\<open>response || ''\<close>.\<close>

fun orEmpty :: "jsstring option \<Rightarrow> jsstring" where
  "orEmpty None = []"
| "orEmpty (Some r) = r"

text \<open>
  What the schedule holds for the row at index \<open>i\<close>: the events while its translation
  awaits the gateway, and whether React commits between the end of the iteration and the
  next reading of the ref.
\<close>

record schedule =
  inFlight :: "nat \<Rightarrow> event list"
  commitAfter :: "nat \<Rightarrow> bool"

text \<open>Lines 309 to 317: the body of the loop, for the row at index \<open>i\<close>.\<close>

definition processRow ::
  "builtins \<Rightarrow> gateway \<Rightarrow> schedule \<Rightarrow> bool \<Rightarrow> int option \<Rightarrow> int option \<Rightarrow> nat \<Rightarrow> row \<Rightarrow> app_state
   \<Rightarrow> row \<times> app_state" where
  "processRow b gw sch engine src dst i r st =
     (case js_get r src of
        None \<Rightarrow> (r, (if commitAfter sch i then commit else id) (st\<lparr>currentRow := i + 1\<rparr>))
      | Some v \<Rightarrow>
          if truthy (Some v) then
            (case onSend b gw (inFlight sch i) engine v st of
               (response, st1) \<Rightarrow>
                 (js_set r dst (Some (Str (orEmpty response))),
                  (if commitAfter sch i then commit else id)
                    ((addTranslation v (orEmpty response) st1)\<lparr>currentRow := i + 1\<rparr>)))
          else (r, (if commitAfter sch i then commit else id) (st\<lparr>currentRow := i + 1\<rparr>)))"

text \<open>
  Lines 305 to 318: the loop, over the rows from index \<open>i\<close> on. The ref is read before
  each row; when it is clear the loop ends and the rows left are returned as they are.
\<close>

fun rows_loop ::
  "builtins \<Rightarrow> gateway \<Rightarrow> schedule \<Rightarrow> bool \<Rightarrow> int option \<Rightarrow> int option \<Rightarrow> nat \<Rightarrow> row list \<Rightarrow> app_state
   \<Rightarrow> row list \<times> app_state" where
  "rows_loop b gw sch engine src dst i [] st = ([], st)"
| "rows_loop b gw sch engine src dst i (r # rest) st =
     (if \<not> isGeneratingRef st then (r # rest, st)
      else (case processRow b gw sch engine src dst i r st of
              (r', st1) \<Rightarrow>
                (case rows_loop b gw sch engine src dst (i + 1) rest st1 of
                   (rest', st2) \<Rightarrow> (r' # rest', st2))))"

text \<open>
  Lines 290 to 334, from the parsed sheet on. The handler is the closure of the latest
  render, whose body has just run \<^verbatim>\<open>let nextId = 0\<close>. With a start row below 1 the first
  row read is \<^verbatim>\<open>jsonData[-1]\<close>, which is \<^verbatim>\<open>undefined\<close>, and indexing it throws. Otherwise
  the result is the grid handed to the sheet writer, and the state after the final
  \<^verbatim>\<open>setIsGenerating(false)\<close>.
\<close>

datatype error = TypeError

definition handleFileUpload ::
  "builtins \<Rightarrow> gateway \<Rightarrow> schedule \<Rightarrow> bool \<Rightarrow> jsstring \<Rightarrow> jsstring \<Rightarrow> int \<Rightarrow> row list \<Rightarrow> app_state
   \<Rightarrow> error + row list \<times> app_state" where
  "handleFileUpload b gw sch engine sourceColumn destinationColumn startRow jsonData st =
     (if startRow - 1 < 0 then Inl TypeError
      else
        (case rows_loop b gw sch engine (columnIndex sourceColumn) (columnIndex destinationColumn)
                (nat (startRow - 1)) (drop (nat (startRow - 1)) jsonData)
                (st\<lparr>isGenerating := True, isGeneratingRef := True, nextId := 0,
                    totalRows := length jsonData\<rparr>) of
           (rows', st1) \<Rightarrow>
             Inr (take (nat (startRow - 1)) jsonData @ rows', st1\<lparr>isGenerating := False\<rparr>)))"

section \<open>Instances for evaluation\<close>

text \<open>
  An instance of the built-ins that agrees with the language on ASCII letters, on the
  numbers that are integers below \<open>10\<^sup>2\<^sup>1\<close> in size, and on numeric literals; it is used
  to run the model on examples (other finite numbers it renders as the empty string).
\<close>

definition asciiUpper :: "jsstring \<Rightarrow> jsstring" where
  "asciiUpper s = map (\<lambda>c. if 97 \<le> c \<and> c \<le> 122 then c - 32 else c) s"

definition asciiLower :: "jsstring \<Rightarrow> jsstring" where
  "asciiLower s = map (\<lambda>c. if 65 \<le> c \<and> c \<le> 90 then c + 32 else c) s"

fun decimal :: "nat \<Rightarrow> jsstring" where
  "decimal n = (if n < 10 then [48 + n] else decimal (n div 10) @ [48 + n mod 10])"

fun integerToString :: "jsnumber \<Rightarrow> jsstring" where
  "integerToString NaN = js ''NaN''"
| "integerToString PosInfinity = js ''Infinity''"
| "integerToString NegInfinity = js ''-Infinity''"
| "integerToString (Finite q) =
     (if q = of_int \<lfloor>q\<rfloor> then
        (if q < 0 then 45 # decimal (nat (- \<lfloor>q\<rfloor>)) else decimal (nat \<lfloor>q\<rfloor>))
      else [])"

fun trimEnd :: "jsstring \<Rightarrow> jsstring" where
  "trimEnd [] = []"
| "trimEnd (c # cs) =
     (case trimEnd cs of
        [] \<Rightarrow> if isWhiteSpace c then [] else [c]
      | d # ds \<Rightarrow> c # d # ds)"

definition trim :: "jsstring \<Rightarrow> jsstring" where
  "trim s = trimEnd (dropWhile isWhiteSpace s)"

definition isExponent :: "jsstring \<Rightarrow> bool" where
  "isExponent r =
     (case r of
        [] \<Rightarrow> True
      | c # ds \<Rightarrow>
          (c = 101 \<or> c = 69) \<and>
          (case ds of
             [] \<Rightarrow> False
           | d # t \<Rightarrow> if d = 43 \<or> d = 45 then t \<noteq> [] \<and> list_all isDigit t
                       else list_all isDigit ds))"

definition isUnsignedDecimal :: "jsstring \<Rightarrow> bool" where
  "isUnsignedDecimal t =
     (let ip = takeWhile isDigit t; r = dropWhile isDigit t
      in if t = js ''Infinity'' then True
         else (case r of
                 [] \<Rightarrow> ip \<noteq> []
               | c # r1 \<Rightarrow>
                   if c = 46
                   then (ip \<noteq> [] \<or> takeWhile isDigit r1 \<noteq> []) \<and> isExponent (dropWhile isDigit r1)
                   else ip \<noteq> [] \<and> isExponent r))"

definition isRadixLiteral :: "jsstring \<Rightarrow> bool" where
  "isRadixLiteral t =
     (case t of
        z # x # ds \<Rightarrow>
          z = 48 \<and> ds \<noteq> [] \<and>
          (if x = 120 \<or> x = 88
           then list_all (\<lambda>c. isDigit c \<or> (97 \<le> c \<and> c \<le> 102) \<or> (65 \<le> c \<and> c \<le> 70)) ds
           else if x = 111 \<or> x = 79 then list_all (\<lambda>c. 48 \<le> c \<and> c \<le> 55) ds
           else if x = 98 \<or> x = 66 then list_all (\<lambda>c. c = 48 \<or> c = 49) ds
           else False)
      | _ \<Rightarrow> False)"

definition literalIsNaN :: "jsstring \<Rightarrow> bool" where
  "literalIsNaN s =
     (let t = trim s
      in \<not> (t = [] \<or> isRadixLiteral t \<or>
             (case t of
                c # u \<Rightarrow> if c = 43 \<or> c = 45 then isUnsignedDecimal u else isUnsignedDecimal t
              | [] \<Rightarrow> True)))"

definition asciiBuiltins :: builtins where
  "asciiBuiltins =
     \<lparr>toUpperCase = asciiUpper, toLowerCase = asciiLower,
      numberToString = integerToString, stringIsNaN = literalIsNaN\<rparr>"

text \<open>
  A gateway in which the model is the identity: every operation succeeds, and a completion
  answers with the paragraph it was sent, the last \<^verbatim>\<open>max_gen_len - 50\<close> code units of the
  message.
\<close>

fun identityCompletion :: "request list \<Rightarrow> jsstring + jsstring option list" where
  "identityCompletion (Create content n # reqs) = Inr [Some (drop (length content - (n - 50)) content)]"
| "identityCompletion reqs = Inr []"

definition identityGateway :: gateway where
  "identityGateway =
     \<lparr>loadEngine = (\<lambda>reqs. Inr ()), resetChat = (\<lambda>reqs. Inr ()),
      completion = identityCompletion, runtimeStatsText = (\<lambda>reqs. Inr [])\<rparr>"

text \<open>A gateway whose model answers every paragraph with the same long, punctuated text.\<close>

definition verboseGateway :: gateway where
  "verboseGateway =
     identityGateway\<lparr>completion :=
       (\<lambda>reqs. Inr [Some (js ''Bonjour, ''), None, Some (js ''le monde! Comment allez-vous?'')])\<rparr>"

text \<open>A gateway whose completions all throw, and one whose engine cannot be loaded.\<close>

definition failingGateway :: gateway where
  "failingGateway = identityGateway\<lparr>completion := (\<lambda>reqs. Inl (js ''device lost''))\<rparr>"

definition unloadableGateway :: gateway where
  "unloadableGateway = identityGateway\<lparr>loadEngine := (\<lambda>reqs. Inl (js ''no adapter''))\<rparr>"

text \<open>
  A gateway whose first completion throws: the one asked when no completion has been
  asked before. The later ones answer as the identity does.
\<close>

fun isCreate :: "request \<Rightarrow> bool" where
  "isCreate (Create content n) = True"
| "isCreate r = False"

definition failFirstGateway :: gateway where
  "failFirstGateway =
     identityGateway\<lparr>completion :=
       (\<lambda>reqs. if list_ex isCreate (tl reqs) then identityCompletion reqs
               else Inl (js ''device lost''))\<rparr>"

text \<open>
  Schedules. In the first nothing happens besides the run. In the second React commits
  only while the gateway is awaited, as it does when it batches the updates made outside
  its event handlers and renders in a later task. In the third React also commits at the
  end of every iteration. In the last the user clicks Stop while the row at index \<open>k\<close>
  is being translated, between two commits.
\<close>

definition noEvents :: schedule where
  "noEvents = \<lparr>inFlight = (\<lambda>i. []), commitAfter = (\<lambda>i. False)\<rparr>"

definition commitsWhileAwaiting :: schedule where
  "commitsWhileAwaiting = \<lparr>inFlight = (\<lambda>i. [Commit]), commitAfter = (\<lambda>i. False)\<rparr>"

definition commitsAfterEveryRow :: schedule where
  "commitsAfterEveryRow = \<lparr>inFlight = (\<lambda>i. [Commit]), commitAfter = (\<lambda>i. True)\<rparr>"

definition stopDuring :: "nat \<Rightarrow> schedule" where
  "stopDuring k =
     \<lparr>inFlight = (\<lambda>i. if i = k then [Commit, StopClick, Commit] else [Commit]),
      commitAfter = (\<lambda>i. False)\<rparr>"

text \<open>The state of the component when it is mounted: the initial values of its hooks.\<close>

definition initialState :: app_state where
  "initialState =
     \<lparr>isGenerating = False, committedIsGenerating = False, isGeneratingRef = False,
      errorBrowserMessage = None, runtimeStats = [], translationList = [], nextId = 0,
      currentRow = 0, totalRows = 0, requests = []\<rparr>"

section \<open>Evaluation\<close>

text \<open>The definitions that running the model on a concrete input unfolds.\<close>

lemmas char_defs = js_def isDigit_def isWordChar_def isWhiteSpace_def isVowel_def
  isPunctuation_def testNumbersSpacesSpecial_def testVowel_def testPunctuation_def
  removePunctuation_def

lemmas builtin_defs = asciiBuiltins_def asciiUpper_def asciiLower_def literalIsNaN_def trim_def
  isRadixLiteral_def isUnsignedDecimal_def isExponent_def

lemmas onSend_defs = onSend_def translate_def assemble_def generate_def postProcess_def
  selectPrompt_def promptSentenceEnglishToFrench_def promptEnglishToFrench_def

lemmas gateway_defs = identityGateway_def verboseGateway_def failingGateway_def
  unloadableGateway_def failFirstGateway_def

lemmas driver_defs = handleFileUpload_def processRow_def addTranslation_def commit_def
  onStop_def noEvents_def commitsWhileAwaiting_def commitsAfterEveryRow_def stopDuring_def
  initialState_def

section \<open>The post-processor\<close>

lemma removePunctuation_clean: "\<not> testPunctuation (removePunctuation m)"
  by (simp add: testPunctuation_def removePunctuation_def list_ex_iff)

text \<open>
  An output more than three times as long as the input is replaced by the input, and the
  two later steps leave the input as it is: matching the case of a text to itself maps it
  to itself, and a text has a punctuation mark only if it has one.
\<close>

lemma postProcess_runaway:
  assumes "3 * length s < length msg"
  shows "postProcess b s msg = s"
proof -
  let ?m2 = "if s = toUpperCase b s then toUpperCase b s
             else if s = toLowerCase b s then toLowerCase b s else s"
  have m2: "?m2 = s" by auto
  have "postProcess b s msg =
          (if testPunctuation ?m2 \<and> \<not> testPunctuation s then removePunctuation ?m2 else ?m2)"
    using assms by (simp add: postProcess_def)
  also have "\<dots> = s" unfolding m2 by simp
  finally show ?thesis .
qed

lemma postProcess_clean:
  assumes "\<not> testPunctuation s"
  shows "\<not> testPunctuation (postProcess b s msg)"
  using assms by (simp add: postProcess_def Let_def removePunctuation_clean)

text \<open>
  What \<open>onSend\<close> returns for a string, when it returns a text: the string itself, or the
  post-processed message that \<open>assemble\<close> put together.
\<close>

lemma onSend_Str_result:
  assumes "fst (onSend b gw evs engine (Str s) st) = Some out"
  shows "out = s \<or>
         (\<exists>msg. fst (assemble gw evs engine s st) = Inr msg \<and> out = postProcess b s msg)"
  using assms
  by (auto simp: onSend_def translate_def split: if_splits prod.splits sum.splits)

text \<open>
  C2. Whenever the message assembled from the model's output for a cell is more than three
  times as long as the input text, the text that \<open>onSend\<close> returns for the cell is the
  input text itself.
\<close>

theorem runaway_output_yields_input:
  assumes "fst (assemble gw evs engine s st) = Inr msg"
      and "3 * length s < length msg"
      and "fst (onSend b gw evs engine (Str s) st) = Some out"
  shows "out = s"
  using onSend_Str_result [OF assms(3)] assms(1,2) by (auto simp: postProcess_runaway)

theorem runaway_output_yields_input_witness:
  "fst (assemble verboseGateway [] True (js ''hi'') initialState)
     = Inr (js ''Bonjour, le monde! Comment allez-vous?'')
   \<and> 3 * length (js ''hi'') < length (js ''Bonjour, le monde! Comment allez-vous?'')
   \<and> fst (onSend asciiBuiltins verboseGateway [] True (Str (js ''hi'')) initialState)
       = Some (js ''hi'')"
proof -
  have a: "fst (assemble verboseGateway [] True (js ''hi'') initialState)
             = Inr (js ''Bonjour, le monde! Comment allez-vous?'')"
    by (simp add: char_defs onSend_defs gateway_defs initialState_def)
  have l: "3 * length (js ''hi'') < length (js ''Bonjour, le monde! Comment allez-vous?'')"
    by (simp add: js_def)
  have "\<exists>out. fst (onSend asciiBuiltins verboseGateway [] True (Str (js ''hi'')) initialState)
                = Some out"
    by (simp add: char_defs builtin_defs onSend_defs gateway_defs initialState_def)
  then obtain out
    where o: "fst (onSend asciiBuiltins verboseGateway [] True (Str (js ''hi'')) initialState)
                = Some out" ..
  from runaway_output_yields_input [OF a l o] a l o show ?thesis by simp
qed

text \<open>
  C4. When the input text has none of the four marks \<^verbatim>\<open>. , ! ?\<close>, the text that
  \<open>onSend\<close> returns has none of them, whatever the gateway answered.
\<close>

theorem no_punctuation_introduced:
  assumes "\<not> testPunctuation s"
      and "fst (onSend b gw evs engine (Str s) st) = Some out"
  shows "\<not> testPunctuation out"
  using onSend_Str_result [OF assms(2)] assms(1) by (auto simp: postProcess_clean)

theorem no_punctuation_introduced_witness:
  "\<not> testPunctuation (js ''good morning everybody'')
   \<and> fst (onSend asciiBuiltins verboseGateway [] True (Str (js ''good morning everybody''))
            initialState)
       = Some (js ''bonjour le monde comment allez-vous'')
   \<and> \<not> testPunctuation (js ''bonjour le monde comment allez-vous'')"
proof -
  have p: "\<not> testPunctuation (js ''good morning everybody'')"
    by (simp add: char_defs)
  have o: "fst (onSend asciiBuiltins verboseGateway [] True (Str (js ''good morning everybody''))
                 initialState)
             = Some (js ''bonjour le monde comment allez-vous'')"
    by (simp add: char_defs builtin_defs onSend_defs gateway_defs initialState_def)
  from no_punctuation_introduced [OF p o] p o show ?thesis by simp
qed

section \<open>The classifier\<close>

text \<open>
  C3. A value that is not the empty string and that is a number, or a string that converts
  to a number, is returned in its text form: the rendering of the number, or the string as
  it stands. The state comes back as it was, so no request went to the gateway.
\<close>

theorem numeric_value_passes_through:
  assumes "inputUser \<noteq> Str []"
      and "typeofNumber inputUser \<or> \<not> isNaN_Number b inputUser"
  shows "onSend b gw evs engine inputUser st = (Some (toString b inputUser), st)"
  using assms by (simp add: onSend_def)

theorem numeric_value_passes_through_witness:
  "onSend asciiBuiltins failingGateway [] False (Num (Finite 120)) initialState
     = (Some (js ''120''), initialState)
   \<and> \<not> isNaN_Number asciiBuiltins (Str (js '' 1e3''))
   \<and> onSend asciiBuiltins failingGateway [] False (Str (js '' 1e3'')) initialState
       = (Some (js '' 1e3''), initialState)"
proof -
  have n: "Num (Finite 120) \<noteq> Str []" by simp
  have t: "typeofNumber (Num (Finite 120)) \<or> \<not> isNaN_Number asciiBuiltins (Num (Finite 120))"
    by simp
  have r: "toString asciiBuiltins (Num (Finite 120)) = js ''120''"
    by (simp add: asciiBuiltins_def js_def)
  have e: "Str (js '' 1e3'') \<noteq> Str []" by (simp add: js_def)
  have c: "\<not> isNaN_Number asciiBuiltins (Str (js '' 1e3''))"
    by (simp add: char_defs builtin_defs)
  then have d: "typeofNumber (Str (js '' 1e3'')) \<or> \<not> isNaN_Number asciiBuiltins (Str (js '' 1e3''))"
    by simp
  from numeric_value_passes_through [OF n t] numeric_value_passes_through [OF e d] r c
  show ?thesis by simp
qed

text \<open>
  C10, as amended. A string that is not empty and holds only digits, white space and code
  units outside \<^verbatim>\<open>[A-Za-z0-9_]\<close> is returned as it stands, and the state comes back as it
  was, so no request went to the gateway. The code units outside the class include the
  accented letters.
\<close>

theorem symbol_only_text_passes_through:
  assumes "s \<noteq> []"
      and "list_all (\<lambda>c. isDigit c \<or> isWhiteSpace c \<or> \<not> isWordChar c) s"
  shows "onSend b gw evs engine (Str s) st = (Some s, st)"
  using assms by (simp add: onSend_def testNumbersSpacesSpecial_def)

theorem symbol_only_text_passes_through_witness:
  "list_all (\<lambda>c. isDigit c \<or> isWhiteSpace c \<or> \<not> isWordChar c) [233, 32, 224, 50]
   \<and> onSend asciiBuiltins failingGateway [] False (Str [233, 32, 224, 50]) initialState
       = (Some [233, 32, 224, 50], initialState)"
proof -
  have n: "[233, 32, 224, 50] \<noteq> ([] :: jsstring)" by simp
  have c: "list_all (\<lambda>c. isDigit c \<or> isWhiteSpace c \<or> \<not> isWordChar c) [233, 32, 224, 50]"
    by (simp add: char_defs)
  from symbol_only_text_passes_through [OF n c] c show ?thesis by simp
qed

text \<open>
  Without the condition the statement fails: the empty string holds nothing but such code
  units, and \<open>onSend\<close> returns no text for it. And the string of code units 233, 116, 233
  (e acute, t, e acute) is not in the class, since t is a word character.
\<close>

theorem empty_text_has_no_result_and_t_is_a_word_character:
  "list_all (\<lambda>c. isDigit c \<or> isWhiteSpace c \<or> \<not> isWordChar c) []
   \<and> fst (onSend asciiBuiltins identityGateway [] True (Str []) initialState) = None
   \<and> \<not> list_all (\<lambda>c. isDigit c \<or> isWhiteSpace c \<or> \<not> isWordChar c) [233, 116, 233]"
  by (simp add: onSend_def char_defs)

text \<open>
  That string is returned as it stands all the same, by the rule on vowels: e acute is
  none of the twelve letters of the class.
\<close>

lemma accented_word_passes_by_vowel_rule:
  "onSend b gw evs engine (Str [233, 116, 233]) st = (Some [233, 116, 233], st)"
  by (simp add: onSend_def char_defs)

section \<open>Paragraphs\<close>

text \<open>
  Splitting and joining again with the separator gives the text back, and the last piece is
  empty exactly when the text is empty or ends with the separator.
\<close>

lemma js_split_not_Nil: "js_split sep s \<noteq> []"
  by (induction s) (auto split: list.splits)

lemma js_split_join:
  "concat (map (\<lambda>p. p @ [sep]) (butlast (js_split sep s))) @ last (js_split sep s) = s"
proof (induction s)
  case Nil
  show ?case by simp
next
  case (Cons c cs)
  show ?case
  proof (cases "c = sep")
    case True
    with Cons js_split_not_Nil [of sep cs] show ?thesis by simp
  next
    case False
    obtain p ps where s: "js_split sep cs = p # ps"
      using js_split_not_Nil [of sep cs] by (cases "js_split sep cs") auto
    with Cons False show ?thesis by (cases ps) auto
  qed
qed

lemma js_split_single:
  assumes "js_split sep s = [p]"
  shows "sep \<notin> set s"
  using assms
proof (induction s arbitrary: p)
  case Nil
  show ?case by simp
next
  case (Cons c cs)
  obtain q qs where s: "js_split sep cs = q # qs"
    using js_split_not_Nil [of sep cs] by (cases "js_split sep cs") auto
  from Cons.prems s have ne: "c \<noteq> sep" by (auto split: if_splits)
  with Cons.prems s have "qs = []" by simp
  with s Cons.IH have "sep \<notin> set cs" by simp
  with ne show ?case by simp
qed

lemma last_js_split:
  "last (js_split sep s) = [] \<longleftrightarrow> s = [] \<or> last s = sep"
proof (induction s)
  case Nil
  show ?case by simp
next
  case (Cons c cs)
  obtain p ps where s: "js_split sep cs = p # ps"
    using js_split_not_Nil [of sep cs] by (cases "js_split sep cs") auto
  show ?case
  proof (cases "c = sep")
    case True
    with Cons s show ?thesis by auto
  next
    case False
    show ?thesis
    proof (cases "ps = []")
      case True
      with s have "sep \<notin> set cs" by (simp add: js_split_single)
      then have "cs \<noteq> [] \<Longrightarrow> last cs \<noteq> sep" using last_in_set [of cs] by auto
      with False True s show ?thesis by auto
    next
      case ne: False
      with Cons s have "cs \<noteq> []" by auto
      with False ne Cons s show ?thesis by simp
    qed
  qed
qed

text \<open>
  With the identity for a model, the assembled message is the text itself when its last
  paragraph is not empty, and the text with one more newline when it is: the round trip
  holds for the first kind of text only.
\<close>

lemma identityCompletion_answer:
  "completion identityGateway (Create (pr @ p) (length p + 50) # reqs) = Inr [Some p]"
  by (simp add: identityGateway_def)

lemma translateParagraphs_identity:
  assumes "ps \<noteq> []" and "n = i + length ps"
  shows "fst (translateParagraphs identityGateway n i ps msg reqs)
           = Inr (msg @ concat (map (\<lambda>p. p @ [10]) (butlast ps))
                      @ (if last ps = [] then [10] else last ps))"
  using assms
proof (induction ps arbitrary: i msg reqs)
  case Nil
  then show ?case by simp
next
  case (Cons p ps)
  show ?case
  proof (cases "ps = []")
    case True
    with Cons.prems show ?thesis by (simp add: identityCompletion_answer)
  next
    case False
    from Cons.prems False have lt: "i < n - 1" by (cases ps) auto
    from Cons.prems have n: "n = Suc i + length ps" by simp
    note ih = Cons.IH [OF False n]
    from False lt show ?thesis by (simp add: identityCompletion_answer ih)
  qed
qed

lemma generate_identity:
  "fst (generate identityGateway s reqs) = Inr (if s = [] \<or> last s = 10 then s @ [10] else s)"
proof -
  let ?ps = "js_split 10 s"
  have r: "resetChat identityGateway (ResetChat # reqs) = Inr ()"
    by (simp add: identityGateway_def)
  have "fst (generate identityGateway s reqs)
          = fst (translateParagraphs identityGateway (length ?ps) 0 ?ps [] (ResetChat # reqs))"
    by (simp add: generate_def r)
  also have "\<dots> = Inr ([] @ concat (map (\<lambda>p. p @ [10]) (butlast ?ps))
                       @ (if last ?ps = [] then [10] else last ?ps))"
    by (rule translateParagraphs_identity) (simp_all add: js_split_not_Nil)
  also have "\<dots> = Inr (if s = [] \<or> last s = 10 then s @ [10] else s)"
  proof (cases "last ?ps = []")
    case True
    with js_split_join [of 10 s] have "concat (map (\<lambda>p. p @ [10]) (butlast ?ps)) = s" by simp
    with True last_js_split [of 10 s] show ?thesis by simp
  next
    case False
    with js_split_join [of 10 s] last_js_split [of 10 s] show ?thesis by simp
  qed
  finally show ?thesis .
qed

text \<open>
  C1. With the identity for a model, the text \<^verbatim>\<open>a\<close> followed by a newline does not come
  back as it was: the empty last paragraph adds a newline of its own after the separator,
  and the result ends with two.
\<close>

theorem trailing_newline_is_doubled:
  "fst (onSend asciiBuiltins identityGateway [] True (Str [97, 10]) initialState)
     = Some [97, 10, 10]"
  by (simp add: char_defs builtin_defs onSend_defs gateway_defs initialState_def)

section \<open>Errors of the gateway\<close>

text \<open>
  An error of the engine, while it is loaded or while it generates, is caught inside
  \<open>onSend\<close>: no text is returned, the state \<open>isGenerating\<close> is cleared and a message is
  set. The ref that the loop reads is not written there.
\<close>

lemma assemble_error_state:
  assumes "assemble gw evs engine s st = (Inl e, st2)"
  shows "\<not> isGenerating st2 \<and> errorBrowserMessage st2 \<noteq> None"
  using assms
  by (auto simp: assemble_def Let_def split: if_splits prod.splits sum.splits)

lemma gateway_error_is_caught:
  assumes "fst (assemble gw evs engine s st) = Inl e"
  shows "fst (translate b gw evs engine s st) = None
         \<and> \<not> isGenerating (snd (translate b gw evs engine s st))
         \<and> errorBrowserMessage (snd (translate b gw evs engine s st)) \<noteq> None"
proof -
  obtain st2 where a: "assemble gw evs engine s st = (Inl e, st2)"
    using assms by (cases "assemble gw evs engine s st") simp
  from assemble_error_state [OF a] a show ?thesis by (simp add: translate_def)
qed

lemma load_failure_gives_no_result:
  "fst (onSend asciiBuiltins unloadableGateway [] False (Str (js ''hello'')) initialState) = None"
  by (simp add: char_defs builtin_defs onSend_defs gateway_defs driver_defs)

section \<open>Properties of the row driver\<close>

text \<open>
  When the ref is clear the loop returns the rows it was given. A run that ends with the
  ref clear is not changed by rows added behind it, and the rows in front are processed
  the same whatever follows them.
\<close>

lemma rows_loop_stopped:
  "\<not> isGeneratingRef st \<Longrightarrow> rows_loop b gw sch engine src dst i rows st = (rows, st)"
  by (cases rows) simp_all

lemma rows_loop_append:
  assumes "rows_loop b gw sch engine src dst i xs st = (xs', st')"
      and "\<not> isGeneratingRef st'"
  shows "rows_loop b gw sch engine src dst i (xs @ ys) st = (xs' @ ys, st')"
  using assms
proof (induction xs arbitrary: i st xs' st')
  case Nil
  then show ?case by (simp add: rows_loop_stopped)
next
  case (Cons r xs)
  show ?case
  proof (cases "isGeneratingRef st")
    case False
    with Cons.prems show ?thesis by (simp add: rows_loop_stopped)
  next
    case True
    obtain r' st1 where p: "processRow b gw sch engine src dst i r st = (r', st1)"
      by (cases "processRow b gw sch engine src dst i r st")
    obtain rest' st2 where l: "rows_loop b gw sch engine src dst (i + 1) xs st1 = (rest', st2)"
      by (cases "rows_loop b gw sch engine src dst (i + 1) xs st1")
    from Cons.prems(1) True p l have e: "xs' = r' # rest'" "st' = st2" by simp_all
    from Cons.IH [OF l] Cons.prems(2) e
    have "rows_loop b gw sch engine src dst (i + 1) (xs @ ys) st1 = (rest' @ ys, st2)" by simp
    with True p e show ?thesis by simp
  qed
qed

text \<open>
  The number of rows shown as the total is not read by the run: setting it commutes with
  every step.
\<close>

lemma totalRows_outward:
  "st\<lparr>totalRows := t, isGenerating := a\<rparr> = st\<lparr>isGenerating := a, totalRows := t\<rparr>"
  "st\<lparr>totalRows := t, committedIsGenerating := a\<rparr> = st\<lparr>committedIsGenerating := a, totalRows := t\<rparr>"
  "st\<lparr>totalRows := t, isGeneratingRef := a\<rparr> = st\<lparr>isGeneratingRef := a, totalRows := t\<rparr>"
  "st\<lparr>totalRows := t, errorBrowserMessage := m\<rparr> = st\<lparr>errorBrowserMessage := m, totalRows := t\<rparr>"
  "st\<lparr>totalRows := t, runtimeStats := u\<rparr> = st\<lparr>runtimeStats := u, totalRows := t\<rparr>"
  "st\<lparr>totalRows := t, translationList := ts\<rparr> = st\<lparr>translationList := ts, totalRows := t\<rparr>"
  "st\<lparr>totalRows := t, nextId := k\<rparr> = st\<lparr>nextId := k, totalRows := t\<rparr>"
  "st\<lparr>totalRows := t, currentRow := k\<rparr> = st\<lparr>currentRow := k, totalRows := t\<rparr>"
  "st\<lparr>totalRows := t, requests := rs\<rparr> = st\<lparr>requests := rs, totalRows := t\<rparr>"
  by simp_all

lemma commit_totalRows: "commit (st\<lparr>totalRows := t\<rparr>) = (commit st)\<lparr>totalRows := t\<rparr>"
  by (simp add: commit_def)

lemma applyEvents_totalRows:
  "applyEvents evs (st\<lparr>totalRows := t\<rparr>) = (applyEvents evs st)\<lparr>totalRows := t\<rparr>"
proof (induction evs arbitrary: st)
  case Nil
  show ?case by simp
next
  case (Cons e evs)
  show ?case by (cases e) (simp_all add: onStop_def commit_totalRows totalRows_outward Cons.IH)
qed

lemma assemble_totalRows:
  "assemble gw evs engine s (st\<lparr>totalRows := t\<rparr>)
     = apsnd (\<lambda>x. x\<lparr>totalRows := t\<rparr>) (assemble gw evs engine s st)"
  by (simp add: assemble_def Let_def applyEvents_totalRows totalRows_outward
           split: prod.splits sum.splits)

lemma translate_totalRows:
  "translate b gw evs engine s (st\<lparr>totalRows := t\<rparr>)
     = apsnd (\<lambda>x. x\<lparr>totalRows := t\<rparr>) (translate b gw evs engine s st)"
  by (simp add: translate_def assemble_totalRows totalRows_outward split: prod.splits sum.splits)

lemma onSend_totalRows:
  "onSend b gw evs engine v (st\<lparr>totalRows := t\<rparr>)
     = apsnd (\<lambda>x. x\<lparr>totalRows := t\<rparr>) (onSend b gw evs engine v st)"
  by (simp add: onSend_def translate_totalRows)

lemma processRow_totalRows:
  "processRow b gw sch engine src dst i r (st\<lparr>totalRows := t\<rparr>)
     = apsnd (\<lambda>x. x\<lparr>totalRows := t\<rparr>) (processRow b gw sch engine src dst i r st)"
  by (simp add: processRow_def onSend_totalRows addTranslation_def commit_totalRows totalRows_outward
           split: option.splits prod.splits)

lemma rows_loop_totalRows:
  "rows_loop b gw sch engine src dst i rows (st\<lparr>totalRows := t\<rparr>)
     = apsnd (\<lambda>x. x\<lparr>totalRows := t\<rparr>) (rows_loop b gw sch engine src dst i rows st)"
proof (induction rows arbitrary: i st)
  case Nil
  show ?case by simp
next
  case (Cons r rows)
  show ?case by (simp add: processRow_totalRows Cons.IH split: prod.splits)
qed

text \<open>
  The events and \<open>onSend\<close> leave the list of translations and the counter as they are.
\<close>

lemma commit_fields:
  "translationList (commit st) = translationList st" "nextId (commit st) = nextId st"
  "requests (commit st) = requests st"
  by (simp_all add: commit_def)

lemma applyEvents_fields:
  "translationList (applyEvents evs st) = translationList st \<and> nextId (applyEvents evs st) = nextId st
   \<and> requests (applyEvents evs st) = requests st"
proof (induction evs arbitrary: st)
  case Nil
  show ?case by simp
next
  case (Cons e evs)
  show ?case by (cases e) (simp_all add: onStop_def commit_fields Cons.IH)
qed

lemma assemble_fields:
  "translationList (snd (assemble gw evs engine s st)) = translationList st
   \<and> nextId (snd (assemble gw evs engine s st)) = nextId st"
  by (simp add: assemble_def Let_def applyEvents_fields split: prod.splits sum.splits)

lemma translate_fields:
  "translationList (snd (translate b gw evs engine s st)) = translationList st
   \<and> nextId (snd (translate b gw evs engine s st)) = nextId st"
  using assemble_fields [of gw evs engine s st]
  by (auto simp: translate_def split: prod.splits sum.splits)

lemma onSend_fields:
  "translationList (snd (onSend b gw evs engine v st)) = translationList st
   \<and> nextId (snd (onSend b gw evs engine v st)) = nextId st"
  by (simp add: onSend_def translate_fields)

lemma js_get_set:
  assumes "0 \<le> j"
  shows "js_get (js_set r (Some j) v) (Some j) = v"
  using assms by (simp add: nth_append)

lemma rows_loop_prefix:
  "take (length xs) (fst (rows_loop b gw sch engine src dst i (xs @ ys) st))
     = fst (rows_loop b gw sch engine src dst i xs st)"
proof (induction xs arbitrary: i st)
  case Nil
  show ?case by simp
next
  case (Cons r xs)
  show ?case
  proof (cases "isGeneratingRef st")
    case False
    then show ?thesis by (simp add: rows_loop_stopped)
  next
    case True
    obtain r' st1 where p: "processRow b gw sch engine src dst i r st = (r', st1)"
      by (cases "processRow b gw sch engine src dst i r st")
    have "take (length xs) (fst (rows_loop b gw sch engine src dst (i + 1) (xs @ ys) st1))
            = fst (rows_loop b gw sch engine src dst (i + 1) xs st1)"
      by (rule Cons.IH)
    with True p show ?thesis by (simp add: case_prod_beta)
  qed
qed

text \<open>
  The loop body. A source cell that does not count as true leaves the row and the list of
  translations as they are. One that does has the text returned for it, or the empty string
  when none is returned, written to the destination cell, and a record put in front of
  the list.
\<close>

lemma processRow_empty_source:
  assumes "\<not> truthy (js_get r src)"
  shows "fst (processRow b gw sch engine src dst i r st) = r
         \<and> translationList (snd (processRow b gw sch engine src dst i r st)) = translationList st"
proof (cases "js_get r src")
  case None
  then show ?thesis by (simp add: processRow_def commit_fields)
next
  case (Some v)
  with assms have "\<not> truthy (Some v)" by simp
  with Some show ?thesis by (simp add: processRow_def commit_fields)
qed

lemma processRow_filled_source:
  assumes "js_get r src = Some v" and "truthy (Some v)" and "0 \<le> j"
  shows "js_get (fst (processRow b gw sch engine src (Some j) i r st)) (Some j)
           = Some (Str (orEmpty (fst (onSend b gw (inFlight sch i) engine v st))))
         \<and> translationList (snd (processRow b gw sch engine src (Some j) i r st))
             = \<lparr>input_text = v,
                output_text = orEmpty (fst (onSend b gw (inFlight sch i) engine v st)),
                id_seq = nextId st\<rparr> # take 39 (translationList st)"
proof -
  obtain response st1 where o: "onSend b gw (inFlight sch i) engine v st = (response, st1)"
    by (cases "onSend b gw (inFlight sch i) engine v st")
  have f: "translationList st1 = translationList st" "nextId st1 = nextId st"
    using onSend_fields [of b gw "inFlight sch i" engine v st] o by simp_all
  have p: "processRow b gw sch engine src (Some j) i r st
             = (js_set r (Some j) (Some (Str (orEmpty response))),
                (if commitAfter sch i then commit else id)
                  ((addTranslation v (orEmpty response) st1)\<lparr>currentRow := i + 1\<rparr>))"
    using assms(1,2) o by (simp add: processRow_def)
  show ?thesis
    unfolding p using assms(3) f o
    by (simp add: js_get_set addTranslation_def commit_fields del: js_get.simps js_set.simps)
qed

text \<open>
  C5. A row whose source cell holds the number 0 is passed over like an empty one: line 311
  tests the value for truth, and 0 is false. In the sheet below, with source column B and
  destination column C from row 2 on, the row holding 0 gets no destination cell and no
  record, while the row holding 5 gets both.
\<close>

theorem numeric_zero_is_skipped:
  "(case handleFileUpload asciiBuiltins identityGateway noEvents True (js ''B'') (js ''C'') 2
           [[Some (Str (js ''id'')), Some (Str (js ''count''))],
            [Some (Str (js ''a'')), Some (Num (Finite 0))],
            [Some (Str (js ''b'')), Some (Num (Finite 5))]] initialState of
      Inl e \<Rightarrow> False
    | Inr (grid, st) \<Rightarrow>
        grid = [[Some (Str (js ''id'')), Some (Str (js ''count''))],
                [Some (Str (js ''a'')), Some (Num (Finite 0))],
                [Some (Str (js ''b'')), Some (Num (Finite 5)), Some (Str (js ''5''))]]
        \<and> map input_text (translationList st) = [Num (Finite 5)])"
  by (simp add: char_defs builtin_defs onSend_defs gateway_defs driver_defs)

text \<open>
  A click on Stop followed by a commit clears the ref, once the running state has been
  committed.
\<close>

lemma stop_then_commit_clears_ref:
  assumes "committedIsGenerating st"
  shows "\<not> isGeneratingRef (commit (onStop st))"
  using assms by (simp add: commit_def onStop_def)

text \<open>
  A click on Stop can only land while a cell is awaited. With the running state committed
  before it and the cleared state committed after it, the ref is clear when \<open>onSend\<close>
  comes back; the row in flight is written all the same (\<open>processRow_filled_source\<close>),
  since the ref is read only before a row.
\<close>

lemma click_in_flight_clears_ref:
  "\<not> isGeneratingRef (snd (assemble gw [Commit, StopClick, Commit] engine s st))"
  by (simp add: assemble_def Let_def commit_def onStop_def split: prod.splits sum.splits)

text \<open>
  C6, as amended. If the ref is clear when the run has come to the row boundary after the
  row at index \<open>k\<close>, that is, if the run over the rows up to index \<open>k\<close> ends with the ref
  clear, then the run over the whole sheet returns those rows as that run left them,
  followed by the rows after index \<open>k\<close> as they were in the input. The result is the grid
  handed to the sheet writer: the file is produced. The ref is set when the loop starts
  and read again before every row.
\<close>

theorem stop_leaves_later_rows_untouched:
  assumes "handleFileUpload b gw sch engine sc dc startRow (take (Suc k) jsonData) st = Inr (processed, st1)"
      and "\<not> isGeneratingRef st1"
  shows "handleFileUpload b gw sch engine sc dc startRow jsonData st
           = Inr (processed @ drop (Suc k) jsonData, st1\<lparr>totalRows := length jsonData\<rparr>)"
proof -
  let ?i = "nat (startRow - 1)"
  let ?P = "take (Suc k) jsonData"
  let ?R = "drop (Suc k) jsonData"
  let ?X = "st\<lparr>isGenerating := True, isGeneratingRef := True, nextId := 0\<rparr>"
  let ?loop = "rows_loop b gw sch engine (columnIndex sc) (columnIndex dc) ?i"
  from assms(1) have start: "\<not> startRow - 1 < 0"
    by (auto simp: handleFileUpload_def split: if_splits)
  obtain rows' sX where l: "?loop (drop ?i ?P) ?X = (rows', sX)"
    by (cases "?loop (drop ?i ?P) ?X")
  have lP: "?loop (drop ?i ?P) (?X\<lparr>totalRows := length ?P\<rparr>) = (rows', sX\<lparr>totalRows := length ?P\<rparr>)"
    by (simp add: rows_loop_totalRows l)
  from assms(1) start lP
  have res: "processed = take ?i ?P @ rows'" "st1 = sX\<lparr>totalRows := length ?P, isGenerating := False\<rparr>"
    by (simp_all add: handleFileUpload_def)
  from res(2) assms(2) have stopped: "\<not> isGeneratingRef sX" by simp
  have inside: "?i < length ?P"
  proof (rule ccontr)
    assume "\<not> ?i < length ?P"
    then have "length ?P \<le> ?i" by (simp only: not_less)
    then have "drop ?i ?P = []" by (rule drop_all)
    with l have "sX = ?X" by simp
    with stopped show False by simp
  qed
  have "?loop (drop ?i ?P @ ?R) ?X = (rows' @ ?R, sX)"
    by (rule rows_loop_append [OF l stopped])
  moreover have "drop ?i ?P @ ?R = drop ?i jsonData"
  proof -
    have z: "?i - length ?P = 0" using inside by simp
    have "drop ?i jsonData = drop ?i (?P @ ?R)" by (simp only: append_take_drop_id)
    also have "\<dots> = drop ?i ?P @ drop (?i - length ?P) ?R" by (rule drop_append)
    also have "\<dots> = drop ?i ?P @ ?R" by (simp only: z drop_0)
    finally show ?thesis by (rule sym)
  qed
  ultimately have lJ: "?loop (drop ?i jsonData) (?X\<lparr>totalRows := length jsonData\<rparr>)
                         = (rows' @ ?R, sX\<lparr>totalRows := length jsonData\<rparr>)"
    by (simp add: rows_loop_totalRows)
  have tk: "take ?i jsonData = take ?i ?P"
  proof -
    from inside have "?i \<le> Suc k" by simp
    then have "min ?i (Suc k) = ?i" by (rule min_absorb1)
    then show ?thesis by (simp only: take_take)
  qed
  show ?thesis
    using start lJ res tk by (simp add: handleFileUpload_def)
qed

text \<open>
  The user clicks Stop while the second of three rows is translated, and React commits the
  cleared state before the loop reads the ref again: the third row is left as it was.
\<close>

theorem stop_leaves_later_rows_untouched_witness:
  "\<exists>st1 st2.
     handleFileUpload asciiBuiltins identityGateway (stopDuring 1) True (js ''A'') (js ''B'') 1
       (take (Suc 1) [[Some (Str (js ''one''))], [Some (Str (js ''two''))], [Some (Str (js ''three''))]])
       initialState
       = Inr ([[Some (Str (js ''one'')), Some (Str (js ''one''))],
               [Some (Str (js ''two'')), Some (Str (js ''two''))]], st1)
     \<and> \<not> isGeneratingRef st1
     \<and> handleFileUpload asciiBuiltins identityGateway (stopDuring 1) True (js ''A'') (js ''B'') 1
         [[Some (Str (js ''one''))], [Some (Str (js ''two''))], [Some (Str (js ''three''))]]
         initialState
         = Inr ([[Some (Str (js ''one'')), Some (Str (js ''one''))],
                 [Some (Str (js ''two'')), Some (Str (js ''two''))],
                 [Some (Str (js ''three''))]], st2)"
proof -
  let ?G = "[[Some (Str (js ''one''))], [Some (Str (js ''two''))], [Some (Str (js ''three''))]]"
  have "\<exists>st1. handleFileUpload asciiBuiltins identityGateway (stopDuring 1) True (js ''A'') (js ''B'') 1
       (take (Suc 1) ?G) initialState
       = Inr ([[Some (Str (js ''one'')), Some (Str (js ''one''))],
               [Some (Str (js ''two'')), Some (Str (js ''two''))]], st1)
     \<and> \<not> isGeneratingRef st1"
    by (simp add: char_defs builtin_defs onSend_defs gateway_defs driver_defs)
  then obtain st1 where
    h: "handleFileUpload asciiBuiltins identityGateway (stopDuring 1) True (js ''A'') (js ''B'') 1
       (take (Suc 1) ?G) initialState
       = Inr ([[Some (Str (js ''one'')), Some (Str (js ''one''))],
               [Some (Str (js ''two'')), Some (Str (js ''two''))]], st1)"
    and r: "\<not> isGeneratingRef st1" by blast
  from stop_leaves_later_rows_untouched [OF h r] h r show ?thesis by simp
qed

text \<open>
  A click that lands after the row at index \<open>k\<close> has been processed lands while the next
  row is in flight, and that row is written. Below, the ref is still set when the first two
  of four rows are done; the click comes while the third is translated; the third row is
  written and only the fourth is left as it was.
\<close>

theorem stop_after_a_row_still_writes_the_row_in_flight:
  "(case handleFileUpload asciiBuiltins identityGateway (stopDuring 2) True (js ''A'') (js ''B'') 1
           (take (Suc 1)
              [[Some (Str (js ''one''))], [Some (Str (js ''two''))],
               [Some (Str (js ''three''))], [Some (Str (js ''four''))]])
           initialState of
      Inl e \<Rightarrow> False
    | Inr (grid, st) \<Rightarrow> isGeneratingRef st)
   \<and> (case handleFileUpload asciiBuiltins identityGateway (stopDuring 2) True (js ''A'') (js ''B'') 1
              [[Some (Str (js ''one''))], [Some (Str (js ''two''))],
               [Some (Str (js ''three''))], [Some (Str (js ''four''))]]
              initialState of
         Inl e \<Rightarrow> False
       | Inr (grid, st) \<Rightarrow>
           grid = [[Some (Str (js ''one'')), Some (Str (js ''one''))],
                   [Some (Str (js ''two'')), Some (Str (js ''two''))],
                   [Some (Str (js ''three'')), Some (Str (js ''three''))],
                   [Some (Str (js ''four''))]]
           \<and> \<not> isGeneratingRef st)"
  by (simp add: char_defs builtin_defs onSend_defs gateway_defs driver_defs)

text \<open>
  \<open>onSend\<close> never writes the ref: without events the ref comes back as it was, also when
  the gateway throws. And when React commits only while the gateway is awaited, and nobody
  clicks Stop, the ref stays set through the whole run, whatever the gateway does: the
  loop never ends early.
\<close>

lemma assemble_without_events_keeps_ref:
  "isGeneratingRef (snd (assemble gw [] engine s st)) = isGeneratingRef st"
  by (simp add: assemble_def Let_def split: prod.splits sum.splits)

lemma translate_without_events_keeps_ref:
  "isGeneratingRef (snd (translate b gw [] engine s st)) = isGeneratingRef st"
  using assemble_without_events_keeps_ref [of gw engine s st]
  by (auto simp: translate_def split: prod.splits sum.splits)

lemma onSend_without_events_keeps_ref:
  "isGeneratingRef (snd (onSend b gw [] engine v st)) = isGeneratingRef st"
  by (simp add: onSend_def translate_without_events_keeps_ref)

lemma commits_keep_ref:
  assumes "list_all (\<lambda>e. e = Commit) evs" and "isGenerating st" and "isGeneratingRef st"
  shows "isGeneratingRef (applyEvents evs st)"
  using assms
proof (induction evs arbitrary: st)
  case Nil
  then show ?case by simp
next
  case (Cons e evs)
  from Cons.prems have e: "e = Commit" and rest: "list_all (\<lambda>e. e = Commit) evs" by simp_all
  from Cons.prems have "isGenerating (commit st)" "isGeneratingRef (commit st)"
    by (simp_all add: commit_def)
  from Cons.IH [OF rest this] e show ?case by simp
qed

lemma assemble_keeps_ref:
  assumes "list_all (\<lambda>e. e = Commit) evs" and "isGeneratingRef st"
  shows "isGeneratingRef (snd (assemble gw evs engine s st))"
proof -
  have "isGeneratingRef (applyEvents evs (st\<lparr>isGenerating := True\<rparr>))"
    using assms by (intro commits_keep_ref) simp_all
  then show ?thesis by (simp add: assemble_def Let_def split: prod.splits sum.splits)
qed

lemma onSend_keeps_ref:
  assumes "list_all (\<lambda>e. e = Commit) evs" and "isGeneratingRef st"
  shows "isGeneratingRef (snd (onSend b gw evs engine v st))"
  using assemble_keeps_ref [OF assms, of gw engine "toString b v"] assms(2)
  by (auto simp: onSend_def translate_def split: prod.splits sum.splits)

lemma processRow_keeps_ref:
  assumes "list_all (\<lambda>e. e = Commit) (inFlight sch i)" and "\<not> commitAfter sch i"
      and "isGeneratingRef st"
  shows "isGeneratingRef (snd (processRow b gw sch engine src dst i r st))"
proof (cases "js_get r src")
  case None
  with assms show ?thesis by (simp add: processRow_def)
next
  case (Some v)
  obtain response st1 where o: "onSend b gw (inFlight sch i) engine v st = (response, st1)"
    by (cases "onSend b gw (inFlight sch i) engine v st")
  from onSend_keeps_ref [OF assms(1,3), of b gw engine v] o have "isGeneratingRef st1" by simp
  with Some o assms(2,3) show ?thesis by (simp add: processRow_def addTranslation_def)
qed

lemma errors_do_not_stop_the_run:
  assumes "\<And>i. list_all (\<lambda>e. e = Commit) (inFlight sch i)" and "\<And>i. \<not> commitAfter sch i"
      and "isGeneratingRef st"
  shows "isGeneratingRef (snd (rows_loop b gw sch engine src dst i rows st))"
  using assms(3)
proof (induction rows arbitrary: i st)
  case Nil
  then show ?case by simp
next
  case (Cons r rows)
  have "isGeneratingRef (snd (processRow b gw sch engine src dst i r st))"
    using assms(1,2) Cons.prems by (rule processRow_keeps_ref)
  from Cons.IH [OF this, of "i + 1"] Cons.prems show ?case
    by (simp add: case_prod_beta)
qed

text \<open>
  C7. The gateway throws on the first row, and React commits only while the gateway is
  awaited. The catch clears the state, not the ref; the loop reads the ref before any
  commit, goes on, and the next cell sets the state again. The second row is translated
  and written.
\<close>

theorem run_continues_after_gateway_error:
  "(case handleFileUpload asciiBuiltins failFirstGateway commitsWhileAwaiting True
           (js ''A'') (js ''B'') 1
           [[Some (Str (js ''hello''))], [Some (Str (js ''world''))]] initialState of
      Inl e \<Rightarrow> False
    | Inr (grid, st) \<Rightarrow>
        grid = [[Some (Str (js ''hello'')), Some (Str [])],
                [Some (Str (js ''world'')), Some (Str (js ''world''))]]
        \<and> errorBrowserMessage st = Some (js ''Error. Please try again.''))"
  by (simp add: char_defs builtin_defs onSend_defs gateway_defs driver_defs)

text \<open>
  With a commit between the catch and the next reading of the ref, the run does stop after
  the failing row.
\<close>

lemma run_stops_when_commit_precedes_next_read:
  "(case handleFileUpload asciiBuiltins failFirstGateway commitsAfterEveryRow True
           (js ''A'') (js ''B'') 1
           [[Some (Str (js ''hello''))], [Some (Str (js ''world''))]] initialState of
      Inl e \<Rightarrow> False
    | Inr (grid, st) \<Rightarrow>
        grid = [[Some (Str (js ''hello'')), Some (Str [])],
                [Some (Str (js ''world''))]])"
  by (simp add: char_defs builtin_defs onSend_defs gateway_defs driver_defs)

text \<open>
  Within a run the sequence numbers go up: if the numbers in the list descend from the
  newest record to the oldest and are all below the counter, they still do after the run.
  A first run, which starts from the empty list, leaves them in that order.
\<close>

lemma addTranslation_ids:
  assumes "sorted_wrt (>) (map id_seq (translationList st))"
      and "list_all (\<lambda>t. id_seq t < nextId st) (translationList st)"
  shows "sorted_wrt (>) (map id_seq (translationList (addTranslation v out st)))
         \<and> list_all (\<lambda>t. id_seq t < nextId (addTranslation v out st))
              (translationList (addTranslation v out st))"
proof -
  let ?new = "\<lparr>input_text = v, output_text = out, id_seq = nextId st\<rparr>"
  have s: "sorted_wrt (>) (map id_seq (?new # translationList st))"
    using assms by (auto simp: list_all_iff)
  have a: "list_all (\<lambda>t. id_seq t < nextId st + 1) (?new # translationList st)"
    using assms(2) by (auto simp: list_all_iff)
  have "sorted_wrt (>) (take 40 (map id_seq (?new # translationList st)))"
    using s by (rule sorted_wrt_take)
  moreover have "list_all (\<lambda>t. id_seq t < nextId st + 1) (take 40 (?new # translationList st))"
    using a by (auto simp: list_all_iff dest: in_set_takeD)
  ultimately show ?thesis by (simp add: addTranslation_def take_map)
qed

lemma processRow_ids:
  assumes "sorted_wrt (>) (map id_seq (translationList st))"
      and "list_all (\<lambda>t. id_seq t < nextId st) (translationList st)"
  shows "sorted_wrt (>) (map id_seq (translationList (snd (processRow b gw sch engine src dst i r st))))
         \<and> list_all (\<lambda>t. id_seq t < nextId (snd (processRow b gw sch engine src dst i r st)))
              (translationList (snd (processRow b gw sch engine src dst i r st)))"
proof (cases "truthy (js_get r src)")
  case False
  then have "js_get r src = None \<or> (\<exists>v. js_get r src = Some v \<and> \<not> truthy (Some v))"
    by (cases "js_get r src") auto
  then show ?thesis using assms by (auto simp: processRow_def commit_fields)
next
  case True
  then obtain v where v: "js_get r src = Some v" "truthy (Some v)"
    by (cases "js_get r src") auto
  obtain response st1 where o: "onSend b gw (inFlight sch i) engine v st = (response, st1)"
    by (cases "onSend b gw (inFlight sch i) engine v st")
  have f: "translationList st1 = translationList st" "nextId st1 = nextId st"
    using onSend_fields [of b gw "inFlight sch i" engine v st] o by simp_all
  from assms f have "sorted_wrt (>) (map id_seq (translationList st1))"
    "list_all (\<lambda>t. id_seq t < nextId st1) (translationList st1)" by simp_all
  from addTranslation_ids [OF this, of v "orEmpty response"] v o
  show ?thesis by (simp add: processRow_def commit_fields addTranslation_def)
qed

lemma rows_loop_ids:
  assumes "sorted_wrt (>) (map id_seq (translationList st))"
      and "list_all (\<lambda>t. id_seq t < nextId st) (translationList st)"
  shows "sorted_wrt (>) (map id_seq (translationList (snd (rows_loop b gw sch engine src dst i rows st))))
         \<and> list_all (\<lambda>t. id_seq t < nextId (snd (rows_loop b gw sch engine src dst i rows st)))
              (translationList (snd (rows_loop b gw sch engine src dst i rows st)))"
  using assms
proof (induction rows arbitrary: i st)
  case Nil
  then show ?case by simp
next
  case (Cons r rows)
  show ?case
  proof (cases "isGeneratingRef st")
    case False
    with Cons.prems show ?thesis by simp
  next
    case True
    obtain r' st1 where p: "processRow b gw sch engine src dst i r st = (r', st1)"
      by (cases "processRow b gw sch engine src dst i r st")
    from processRow_ids [OF Cons.prems, of b gw sch engine src dst i r] p
    have "sorted_wrt (>) (map id_seq (translationList st1))"
      "list_all (\<lambda>t. id_seq t < nextId st1) (translationList st1)" by simp_all
    from Cons.IH [OF this, of "i + 1"] True p show ?thesis by (simp add: case_prod_beta)
  qed
qed

lemma first_run_ids_ascend:
  assumes "translationList st = []"
      and "handleFileUpload b gw sch engine sc dc startRow jsonData st = Inr (grid, st')"
  shows "sorted_wrt (>) (map id_seq (translationList st'))"
proof -
  let ?st0 = "st\<lparr>isGenerating := True, isGeneratingRef := True, nextId := 0,
                   totalRows := length jsonData\<rparr>"
  let ?run = "rows_loop b gw sch engine (columnIndex sc) (columnIndex dc) (nat (startRow - 1))
                (drop (nat (startRow - 1)) jsonData) ?st0"
  have "sorted_wrt (>) (map id_seq (translationList ?st0))"
    "list_all (\<lambda>t. id_seq t < nextId ?st0) (translationList ?st0)"
    using assms(1) by simp_all
  then have "sorted_wrt (>) (map id_seq (translationList (snd ?run)))"
    using rows_loop_ids by blast
  moreover from assms(2) have "translationList st' = translationList (snd ?run)"
    by (auto simp: handleFileUpload_def split: if_splits prod.splits)
  ultimately show ?thesis by simp
qed

text \<open>
  C8. Two runs, one after the other, each with one cell: the record of the second run has
  the sequence number 0, as the record of the first run has.
\<close>

theorem sequence_numbers_restart_with_each_run:
  "(case handleFileUpload asciiBuiltins identityGateway noEvents True (js ''A'') (js ''B'') 1
           [[Some (Str (js ''12''))]] initialState of
      Inl e \<Rightarrow> False
    | Inr (grid1, st1) \<Rightarrow>
        (case handleFileUpload asciiBuiltins identityGateway noEvents True (js ''A'') (js ''B'') 1
                [[Some (Str (js ''34''))]] st1 of
           Inl e \<Rightarrow> False
         | Inr (grid2, st2) \<Rightarrow>
             translationList st2
               = [\<lparr>input_text = Str (js ''34''), output_text = js ''34'', id_seq = 0\<rparr>,
                  \<lparr>input_text = Str (js ''12''), output_text = js ''12'', id_seq = 0\<rparr>]))"
  by (simp add: char_defs builtin_defs onSend_defs gateway_defs driver_defs)

text \<open>
  C9. When the source cell of a row counts as true and \<open>onSend\<close> returns no text for it,
  the loop body writes the empty string to the destination cell, over whatever it held, and
  puts a record with the empty string as output in front of the list of translations.
\<close>

theorem missing_result_writes_empty_string:
  assumes "js_get r src = Some v" and "truthy (Some v)"
      and "fst (onSend b gw (inFlight sch i) engine v st) = None"
      and "0 \<le> j"
  shows "js_get (fst (processRow b gw sch engine src (Some j) i r st)) (Some j) = Some (Str [])
         \<and> translationList (snd (processRow b gw sch engine src (Some j) i r st))
             = \<lparr>input_text = v, output_text = [], id_seq = nextId st\<rparr> # take 39 (translationList st)"
proof -
  obtain st1 where o: "onSend b gw (inFlight sch i) engine v st = (None, st1)"
    using assms(3) by (cases "onSend b gw (inFlight sch i) engine v st") simp
  have f: "translationList st1 = translationList st" "nextId st1 = nextId st"
    using onSend_fields [of b gw "inFlight sch i" engine v st] o by simp_all
  have p: "processRow b gw sch engine src (Some j) i r st
             = (js_set r (Some j) (Some (Str [])),
                (if commitAfter sch i then commit else id)
                  ((addTranslation v [] st1)\<lparr>currentRow := i + 1\<rparr>))"
    using assms(1,2) o by (simp add: processRow_def)
  show ?thesis
    unfolding p using assms(4) f
    by (simp add: js_get_set addTranslation_def commit_fields del: js_get.simps js_set.simps)
qed

text \<open>
  A row whose destination cell holds a text, with a gateway whose completions throw.
\<close>

theorem missing_result_writes_empty_string_witness:
  "js_get [Some (Str (js ''hello'')), Some (Str (js ''old''))] (Some 0) = Some (Str (js ''hello''))
   \<and> truthy (Some (Str (js ''hello'')))
   \<and> fst (onSend asciiBuiltins failingGateway (inFlight noEvents 0) True (Str (js ''hello''))
            initialState) = None
   \<and> processRow asciiBuiltins failingGateway noEvents True (Some 0) (Some 1) 0
        [Some (Str (js ''hello'')), Some (Str (js ''old''))] initialState
       = ([Some (Str (js ''hello'')), Some (Str [])],
          initialState\<lparr>errorBrowserMessage := Some (js ''Error. Please try again.''),
            translationList := [\<lparr>input_text = Str (js ''hello''), output_text = [], id_seq = 0\<rparr>],
            nextId := 1, currentRow := 1,
            requests := [Create (promptEnglishToFrench @ js ''hello'') 55, ResetChat]\<rparr>)"
proof -
  have g: "js_get [Some (Str (js ''hello'')), Some (Str (js ''old''))] (Some 0)
             = Some (Str (js ''hello''))"
    by simp
  have t: "truthy (Some (Str (js ''hello'')))" by (simp add: js_def)
  have o: "fst (onSend asciiBuiltins failingGateway (inFlight noEvents 0) True
                 (Str (js ''hello'')) initialState) = None"
    by (simp add: char_defs builtin_defs onSend_defs gateway_defs driver_defs)
  have z: "(0::int) \<le> 1" by simp
  have p: "processRow asciiBuiltins failingGateway noEvents True (Some 0) (Some 1) 0
        [Some (Str (js ''hello'')), Some (Str (js ''old''))] initialState
       = ([Some (Str (js ''hello'')), Some (Str [])],
          initialState\<lparr>errorBrowserMessage := Some (js ''Error. Please try again.''),
            translationList := [\<lparr>input_text = Str (js ''hello''), output_text = [], id_seq = 0\<rparr>],
            nextId := 1, currentRow := 1,
            requests := [Create (promptEnglishToFrench @ js ''hello'') 55, ResetChat]\<rparr>)"
    by (simp add: char_defs builtin_defs onSend_defs gateway_defs driver_defs)
  from missing_result_writes_empty_string [OF g t o z] g t o p show ?thesis by simp
qed

end
